theory Spec2Isabelle
  imports Main "HOL-Library.AList" "HOL-Library.Word"
begin

section \<open>Data model of \<open>main.go\<close>\<close>

text \<open>
  Go strings are byte sequences, as \<^typ>\<open>string\<close> is. Every Go \<open>map\<close> is a reference
  to a map object. The contents of a map object are an association list that is only
  ever changed by \<^const>\<open>AList.update\<close> (the assignment \<open>m[k] = v\<close>), read through
  \<^const>\<open>map_of\<close> (the lookup \<open>m[k]\<close>), and whose length is \<open>len(m)\<close> when its keys are
  distinct. The order of the association list is the order of insertion; Go leaves the
  iteration order of a map unspecified, and no statement below depends on it.
\<close>

record kv =
  kv_key :: string
  kv_value :: string

text \<open>The contents of one \<open>map[string]kv\<close> object.\<close>

type_synonym env_obj = "(string \<times> kv) list"

text \<open>
  A value of the Go type \<open>env\<close>: \<open>nil\<close>, or the address of a map object. Two values
  built from the same address are the same map: a write through one is seen through
  the other.
\<close>

datatype env = nil_env | env_ref nat

text \<open>The store of map objects, by address.\<close>

type_synonym heap = "nat \<Rightarrow> env_obj"

text \<open>\<open>type envs map[string]env\<close>: only one such map exists in a run, so it is held by value.\<close>

type_synonym envs = "(string \<times> env) list"

datatype config_error = InvalidAvoidNetworks | InvalidAvoidMasters

record config =
  AvoidNetworks :: "(string \<times> string) list"
  AvoidMasters :: int

text \<open>
  The ways a run ends early: the runtime panics (an index out of range, an assignment
  into a \<open>nil\<close> map, \<open>panic(err)\<close> after \<open>client.NewClient\<close>), or \<open>log.Fatal\<close> exits
  the process. The strings are the error texts of the platform.
\<close>

datatype failure =
    Panic_index
  | Panic_nil_map
  | Panic_client string
  | Fatal_config config_error
  | Fatal_docker string
  | Fatal_no_networks
  | Fatal_no_nodes
  | Fatal_create string

definition zero_kv :: kv where
  "zero_kv = \<lparr>kv_key = [], kv_value = []\<rparr>"

text \<open>The read \<open>m[k]\<close> on the contents of a map object: a missing key reads as the zero value.\<close>

definition index_kv :: "env_obj \<Rightarrow> string \<Rightarrow> kv" where
  "index_kv m k = (case map_of m k of None \<Rightarrow> zero_kv | Some x \<Rightarrow> x)"

text \<open>The contents seen through a value of type \<open>env\<close>; a \<open>nil\<close> map reads as empty.\<close>

definition deref :: "heap \<Rightarrow> env \<Rightarrow> env_obj" where
  "deref h e = (case e of nil_env \<Rightarrow> [] | env_ref a \<Rightarrow> h a)"

text \<open>The read \<open>containerEnv[network]\<close> on an \<open>envs\<close>: a missing key reads as \<open>nil\<close>.\<close>

definition index_env :: "envs \<Rightarrow> string \<Rightarrow> env" where
  "index_env c n = (case map_of c n of None \<Rightarrow> nil_env | Some e \<Rightarrow> e)"

section \<open>Library functions the program calls\<close>

text \<open>
  \<open>strings.Split(s, sep)\<close> for a separator of one byte, which is what both call sites
  pass (\<open>"="\<close> and \<open>","\<close>): the substrings between the separators, in order; a string
  without the separator, the empty string included, gives the one-element slice that
  holds it.
\<close>

fun strings_Split :: "string \<Rightarrow> char \<Rightarrow> string list" where
  "strings_Split [] sep = [[]]"
| "strings_Split (c # cs) sep =
     (if c = sep then [] # strings_Split cs sep
      else (case strings_Split cs sep of
              [] \<Rightarrow> [[c]]
            | b # bs \<Rightarrow> (c # b) # bs))"

text \<open>
  \<open>strconv.Atoi\<close> on a platform whose \<open>int\<close> has 64 bits: an optional sign, then one or
  more decimal digits, and the number must fit the type. \<open>None\<close> stands for a returned
  error (of syntax or of range), whose text is not modelled.
\<close>

definition is_digit :: "char \<Rightarrow> bool" where
  "is_digit c = (48 \<le> (of_char c :: nat) \<and> (of_char c :: nat) \<le> 57)"

definition digit_val :: "char \<Rightarrow> nat" where
  "digit_val c = of_char c - 48"

fun parse_digits :: "string \<Rightarrow> nat \<Rightarrow> nat option" where
  "parse_digits [] n = Some n"
| "parse_digits (c # cs) n =
     (if is_digit c then parse_digits cs (n * 10 + digit_val c) else None)"

fun strip_sign :: "string \<Rightarrow> bool \<times> string" where
  "strip_sign [] = (False, [])"
| "strip_sign (c # cs) =
     (if c = CHR ''-'' then (True, cs)
      else if c = CHR ''+'' then (False, cs)
      else (False, c # cs))"

definition Atoi :: "string \<Rightarrow> int option" where
  "Atoi s =
     (case strip_sign s of
        (neg, ds) \<Rightarrow>
          if ds = [] then None
          else (case parse_digits ds 0 of
                  None \<Rightarrow> None
                | Some n \<Rightarrow>
                    if neg then (if n \<le> 2 ^ 63 then Some (- int n) else None)
                    else (if n < 2 ^ 63 then Some (int n) else None)))"

section \<open>Parsing and configuration\<close>

text \<open>
  \<open>getKeyValue\<close>: \<open>bits[0]\<close> on an empty slice would panic; \<open>strings.Split\<close> never returns
  one, which \<open>getKeyValue_no_panic\<close> below proves.
\<close>

definition getKeyValue :: "string \<Rightarrow> failure + (string \<times> string)" where
  "getKeyValue data =
     (case strings_Split data CHR ''='' of
        [] \<Rightarrow> Inl Panic_index
      | [b0] \<Rightarrow> Inr (b0, [])
      | b0 # b1 # rest \<Rightarrow> Inr (b0, b1))"

text \<open>\<open>getSubStringsMap\<close>: the loop \<open>for _, v := range list { result[v] = v }\<close>.\<close>

fun fill_map :: "string list \<Rightarrow> (string \<times> string) list \<Rightarrow> (string \<times> string) list" where
  "fill_map [] result = result"
| "fill_map (v # vs) result = fill_map vs (AList.update v v result)"

definition getSubStringsMap :: "string \<Rightarrow> (string \<times> string) list" where
  "getSubStringsMap array = fill_map (strings_Split array CHR '','') []"

text \<open>
  \<open>getConfig\<close> returns the pair (config, error) as the Go function does: on an error the
  configuration built so far comes back with it. The first definition is the second half
  of the function, from \<open>avoidMastersString := ...\<close> on.
\<close>

definition getConfig_masters :: "env_obj \<Rightarrow> config \<Rightarrow> config \<times> config_error option" where
  "getConfig_masters containerEnv cconfig =
     (let avoidMastersString = index_kv containerEnv ''AVOID_MASTERS'' in
      if kv_value avoidMastersString \<noteq> [] then
        (case Atoi (kv_value avoidMastersString) of
           None \<Rightarrow> (cconfig, Some InvalidAvoidMasters)
         | Some s \<Rightarrow> (cconfig\<lparr>AvoidMasters := s\<rparr>, None))
      else (cconfig\<lparr>AvoidMasters := 1\<rparr>, None))"

definition getConfig :: "env_obj \<Rightarrow> config \<times> config_error option" where
  "getConfig containerEnv =
     (let cconfig = \<lparr>AvoidNetworks = [], AvoidMasters = 0\<rparr>;
          avoidStrings = index_kv containerEnv ''AVOID_NETWORKS''
      in if kv_value avoidStrings \<noteq> [] then
           (let nets = getSubStringsMap (kv_value avoidStrings) in
            if length nets = 0 then (cconfig, Some InvalidAvoidNetworks)
            else getConfig_masters containerEnv (cconfig\<lparr>AvoidNetworks := nets\<rparr>))
         else getConfig_masters containerEnv
                (cconfig\<lparr>AvoidNetworks := [(''ingress'', ''ingress'')]\<rparr>))"

section \<open>Discovery\<close>

text \<open>What the platform reports for a network and for a node, as far as the program reads it.\<close>

record network_resource =
  nw_Name :: string
  nw_Driver :: string

record node =
  Role :: string
  Hostname :: string

text \<open>The body of the loop of \<open>getNetworkList\<close>, with the slice \<open>networks\<close> as accumulator.\<close>

fun networks_loop ::
  "(string \<times> string) list \<Rightarrow> network_resource list \<Rightarrow> string list \<Rightarrow> string list" where
  "networks_loop avoidNetworks [] networks = networks"
| "networks_loop avoidNetworks (network # rest) networks =
     networks_loop avoidNetworks rest
       (if nw_Driver network = ''overlay'' then
          (if map_of avoidNetworks (nw_Name network) = None
           then networks @ [nw_Name network] else networks)
        else networks)"

text \<open>
  The platform is outside the program: the error of \<open>client.NewClient\<close> (if any) and the
  answer of \<open>cli.NetworkList\<close> (an error text, or the reported list) are parameters.
\<close>

definition getNetworkList ::
  "string option \<Rightarrow> (string + network_resource list) \<Rightarrow> (string \<times> string) list
     \<Rightarrow> failure + string list" where
  "getNetworkList newClient networkList avoidNetworks =
     (case newClient of
        Some err \<Rightarrow> Inl (Panic_client err)
      | None \<Rightarrow>
          (case networkList of
             Inl err \<Rightarrow> Inl (Fatal_docker err)
           | Inr list \<Rightarrow> Inr (networks_loop avoidNetworks list [])))"

fun nodes_loop :: "int \<Rightarrow> node list \<Rightarrow> string list \<Rightarrow> string list" where
  "nodes_loop avoidMasters [] nodes = nodes"
| "nodes_loop avoidMasters (nd # rest) nodes =
     nodes_loop avoidMasters rest
       (if Role nd = ''manager'' then
          (if avoidMasters = 0 then nodes @ [Hostname nd] else nodes)
        else nodes @ [Hostname nd])"

definition getNodeList ::
  "string option \<Rightarrow> (string + node list) \<Rightarrow> int \<Rightarrow> failure + string list" where
  "getNodeList newClient nodeList avoidMasters =
     (case newClient of
        Some err \<Rightarrow> Inl (Panic_client err)
      | None \<Rightarrow>
          (case nodeList of
             Inl err \<Rightarrow> Inl (Fatal_docker err)
           | Inr list \<Rightarrow> Inr (nodes_loop avoidMasters list [])))"

section \<open>The environment transformation\<close>

text \<open>
  The assignment \<open>e[k] = v\<close> through a value of type \<open>env\<close>: it changes the map object
  at the address, for every holder of that address; on \<open>nil\<close> the runtime panics.
\<close>

definition assign_kv :: "heap \<Rightarrow> env \<Rightarrow> string \<Rightarrow> kv \<Rightarrow> failure + heap" where
  "assign_kv h e k v =
     (case e of
        nil_env \<Rightarrow> Inl Panic_nil_map
      | env_ref a \<Rightarrow> Inr (h(a := AList.update k v (h a))))"

definition setAndGetContainerEnv :: "heap \<Rightarrow> envs \<Rightarrow> string \<Rightarrow> failure + (heap \<times> env)" where
  "setAndGetContainerEnv h containerEnv network =
     (let stackValue = kv_value (index_kv (deref h (index_env containerEnv network)) ''STACK_NAME'');
          serviceValue = kv_value (index_kv (deref h (index_env containerEnv network)) ''SERVICE_NAME'');
          stackKey = kv_key (index_kv (deref h (index_env containerEnv network)) ''STACK_NAME'');
          newStackName = stackValue @ ''_'' @ network;
          newServiceSpecName = newStackName @ ''_'' @ serviceValue
      in case assign_kv h (index_env containerEnv network) ''STACK_NAME''
                \<lparr>kv_key = stackKey, kv_value = newStackName\<rparr> of
           Inl f \<Rightarrow> Inl f
         | Inr h1 \<Rightarrow>
             (case assign_kv h1 (index_env containerEnv network) ''SERVICE_SPEC_NAME''
                     \<lparr>kv_key = ''SERVICE_SPEC_NAME'', kv_value = newServiceSpecName\<rparr> of
                Inl f \<Rightarrow> Inl f
              | Inr h2 \<Rightarrow> Inr (h2, index_env containerEnv network)))"

text \<open>The methods of \<open>env\<close>, on the contents of the map they are called on.\<close>

definition getContainerEnv :: "env_obj \<Rightarrow> string list" where
  "getContainerEnv containerEnv =
     foldl (\<lambda>newContainerEnv (k, v). newContainerEnv @ [kv_key v @ ''='' @ kv_value v])
       [] containerEnv"

definition getServiceName :: "env_obj \<Rightarrow> string" where
  "getServiceName containerEnv = kv_value (index_kv containerEnv ''SERVICE_NAME'')"

definition getServiceSpecName :: "env_obj \<Rightarrow> string" where
  "getServiceSpecName containerEnv = kv_value (index_kv containerEnv ''SERVICE_SPEC_NAME'')"

definition getStackName :: "env_obj \<Rightarrow> string" where
  "getStackName containerEnv = kv_value (index_kv containerEnv ''STACK_NAME'')"

definition getImage :: "env_obj \<Rightarrow> string" where
  "getImage containerEnv = kv_value (index_kv containerEnv ''IMAGE'')"

section \<open>Service specifications\<close>

text \<open>The fields of \<open>swarm.ServiceSpec\<close> that \<open>getServiceDefinition\<close> sets.\<close>

record container_spec =
  Image :: string
  Command :: "string list"
  Env :: "string list"

record network_attachment_config =
  Target :: string
  Aliases :: "string list"

record task_spec =
  ContainerSpec :: container_spec
  Networks :: "network_attachment_config list"

record service_spec =
  spec_Name :: string
  spec_Labels :: "(string \<times> string) list"
  TaskTemplate :: task_spec
  Replicas :: "64 word"

text \<open>The client handle \<open>cli\<close> is not used by the function and is left out.\<close>

definition getServiceDefinition ::
  "heap \<Rightarrow> 64 word \<Rightarrow> string \<Rightarrow> envs \<Rightarrow> failure + (heap \<times> service_spec)" where
  "getServiceDefinition h replicas network cfg =
     (case setAndGetContainerEnv h cfg network of
        Inl f \<Rightarrow> Inl f
      | Inr (h', e) \<Rightarrow>
          (let container = \<lparr>Image = getImage (deref h' e), Command = [''/go/bin/pinger''],
                             Env = getContainerEnv (deref h' e)\<rparr>;
               nets = \<lparr>Target = network, Aliases = [getServiceName (deref h' e)]\<rparr>
           in Inr (h',
                \<lparr>spec_Name = getServiceSpecName (deref h' e),
                 spec_Labels =
                   [(''com.docker.stack.image'', getImage (deref h' e)),
                    (''com.docker.stack.namespace'', getStackName (deref h' e))],
                 TaskTemplate = \<lparr>ContainerSpec = container, Networks = [nets]\<rparr>,
                 Replicas = replicas\<rparr>)))"

section \<open>The stages of \<open>main\<close>\<close>

text \<open>\<open>for _, network := range networks { configs[network] = containerEnv }\<close>\<close>

fun configs_loop :: "env \<Rightarrow> string list \<Rightarrow> envs \<Rightarrow> envs" where
  "configs_loop containerEnv [] configs = configs"
| "configs_loop containerEnv (network # rest) configs =
     configs_loop containerEnv rest (AList.update network containerEnv configs)"

text \<open>The loop that builds the worklist; \<open>replicas\<close> is \<open>uint64(len(nodes))\<close>.\<close>

fun worklist_loop ::
  "64 word \<Rightarrow> envs \<Rightarrow> string list \<Rightarrow> heap \<Rightarrow> service_spec list
     \<Rightarrow> failure + (heap \<times> service_spec list)" where
  "worklist_loop replicas configs [] h worklist = Inr (h, worklist)"
| "worklist_loop replicas configs (network # rest) h worklist =
     (case getServiceDefinition h replicas network configs of
        Inl f \<Rightarrow> Inl f
      | Inr (h', s) \<Rightarrow> worklist_loop replicas configs rest h' (worklist @ [s]))"

text \<open>Lines 262 to 274 of \<open>main\<close>: the environment set, then the worklist.\<close>

definition build_worklist ::
  "heap \<Rightarrow> env \<Rightarrow> string list \<Rightarrow> string list \<Rightarrow> failure + (heap \<times> service_spec list)" where
  "build_worklist h containerEnv networks nodes =
     (let configs = configs_loop containerEnv networks []
      in worklist_loop (of_nat (length nodes)) configs networks h [])"

text \<open>
  What a run leaves in the world: the state of the platform, the service specifications
  handed to \<open>cli.ServiceCreate\<close> so far (oldest first), and the lines printed so far.
\<close>

record 'p world =
  platform :: 'p
  submitted :: "service_spec list"
  printed :: "string list"

text \<open>The line \<open>fmt.Printf("created server: %s\n", work.Name)\<close> prints.\<close>

definition confirmation :: "service_spec \<Rightarrow> string" where
  "confirmation work = ''created server: '' @ spec_Name work @ [CHR 0x0A]"

text \<open>
  The loop over the worklist. \<open>create\<close> is the platform's answer to \<open>cli.ServiceCreate\<close>
  in a given state: an error text or none, and the platform's next state.
\<close>

fun deploy ::
  "('p \<Rightarrow> service_spec \<Rightarrow> string option \<times> 'p) \<Rightarrow> service_spec list \<Rightarrow> 'p world
     \<Rightarrow> failure option \<times> 'p world" where
  "deploy create [] w = (None, w)"
| "deploy create (work # rest) w =
     (case create (platform w) work of
        (Some err, p') \<Rightarrow>
          (Some (Fatal_create err),
           w\<lparr>platform := p', submitted := submitted w @ [work]\<rparr>)
      | (None, p') \<Rightarrow>
          deploy create rest
            (w\<lparr>platform := p', submitted := submitted w @ [work],
               printed := printed w @ [confirmation work]\<rparr>))"

text \<open>
  \<open>main\<close>, from the environment that \<open>getcontainerEnv\<close> has read (the contents \<open>kvs\<close> of a
  fresh map object, here at address 0) to the end of the run.
\<close>

definition main ::
  "env_obj \<Rightarrow> string option \<Rightarrow> (string + network_resource list) \<Rightarrow> (string + node list)
     \<Rightarrow> ('p \<Rightarrow> service_spec \<Rightarrow> string option \<times> 'p) \<Rightarrow> 'p \<Rightarrow> failure option \<times> 'p world" where
  "main kvs newClient networkList nodeList create p =
     (let h = (\<lambda>a. [])(0 := kvs);
          containerEnv = env_ref 0;
          w = \<lparr>platform = p, submitted = [], printed = []\<rparr>
      in case getConfig (deref h containerEnv) of
           (c, Some err) \<Rightarrow> (Some (Fatal_config err), w)
         | (c, None) \<Rightarrow>
             (case getNetworkList newClient networkList (AvoidNetworks c) of
                Inl f \<Rightarrow> (Some f, w)
              | Inr networks \<Rightarrow>
                  if length networks = 0 then (Some Fatal_no_networks, w)
                  else (case getNodeList newClient nodeList (AvoidMasters c) of
                          Inl f \<Rightarrow> (Some f, w)
                        | Inr nodes \<Rightarrow>
                            if length nodes = 0 then (Some Fatal_no_nodes, w)
                            else (case newClient of
                                    Some err \<Rightarrow> (Some (Panic_client err), w)
                                  | None \<Rightarrow>
                                      (case build_worklist h containerEnv networks nodes of
                                         Inl f \<Rightarrow> (Some f, w)
                                       | Inr (h', worklist) \<Rightarrow> deploy create worklist w)))))"

section \<open>Concrete inputs\<close>

text \<open>What \<open>getcontainerEnv\<close> stores for a line \<open>k=v\<close>: \<open>kvs[k] = kv{key: k, value: v}\<close>.\<close>

definition entry :: "string \<Rightarrow> string \<Rightarrow> string \<times> kv" where
  "entry k v = (k, \<lparr>kv_key = k, kv_value = v\<rparr>)"

text \<open>The base environment of the end-to-end scenario, and a store that holds it at address 0.\<close>

definition scenario_env :: env_obj where
  "scenario_env =
     [entry ''STACK_NAME'' ''app'', entry ''SERVICE_NAME'' ''svc'', entry ''IMAGE'' ''img:v1'']"

definition scenario_heap :: heap where
  "scenario_heap = (\<lambda>a. [])(0 := scenario_env)"

text \<open>A store with two separate map objects of equal contents, at addresses 1 and 2.\<close>

definition copies_heap :: heap where
  "copies_heap = (\<lambda>a. [])(1 := scenario_env, 2 := scenario_env)"

text \<open>A service specification that carries a name and nothing else.\<close>

definition named_spec :: "string \<Rightarrow> service_spec" where
  "named_spec n =
     \<lparr>spec_Name = n, spec_Labels = [],
      TaskTemplate = \<lparr>ContainerSpec = \<lparr>Image = [], Command = [], Env = []\<rparr>, Networks = []\<rparr>,
      Replicas = 0\<rparr>"

text \<open>A platform whose state counts the calls and that refuses the service named \<open>b\<close>.\<close>

definition refuse_b :: "nat \<Rightarrow> service_spec \<Rightarrow> string option \<times> nat" where
  "refuse_b p s = (if spec_Name s = ''b'' then Some ''boom'' else None, Suc p)"

section \<open>Facts about the library functions\<close>

lemma strings_Split_not_Nil: "strings_Split s sep \<noteq> []"
  by (induction s) (auto split: list.splits)

lemma strings_Split_no_sep:
  "sep \<notin> set s \<Longrightarrow> strings_Split s sep = [s]"
  by (induction s) auto

lemma strings_Split_append:
  "sep \<notin> set k \<Longrightarrow> strings_Split (k @ sep # rest) sep = k # strings_Split rest sep"
  by (induction k) auto

lemma getKeyValue_no_panic: "\<exists>k v. getKeyValue data = Inr (k, v)"
  using strings_Split_not_Nil [of data "CHR ''=''"]
  by (auto simp: getKeyValue_def split: list.splits)

lemma split_first:
  "sep \<in> set s \<Longrightarrow>
   s = takeWhile (\<lambda>c. c \<noteq> sep) s @ sep # tl (dropWhile (\<lambda>c. c \<noteq> sep) s)"
  by (induction s) auto

lemma count_tl_dropWhile:
  "sep \<in> set s \<Longrightarrow>
   count_list s sep = Suc (count_list (tl (dropWhile (\<lambda>c. c \<noteq> sep) s)) sep)"
  by (induction s) auto

lemma getKeyValue_decomposed:
  assumes "CHR ''='' \<notin> set k" "CHR ''='' \<notin> set v"
  shows "getKeyValue (k @ CHR ''='' # v @ CHR ''='' # rest) = Inr (k, v)"
  using assms strings_Split_not_Nil [of rest "CHR ''=''"]
  by (simp add: getKeyValue_def strings_Split_append split: list.splits)

lemma Atoi_examples:
  "Atoi ''0'' = Some 0" "Atoi ''1'' = Some 1" "Atoi ''bad'' = None"
  by (simp_all add: Atoi_def is_digit_def digit_val_def)

section \<open>Facts about maps and the store\<close>

lemma index_kv_update:
  "index_kv (AList.update k v m) k' = (if k' = k then v else index_kv m k')"
  by (simp add: index_kv_def update_conv')

lemma update_not_Nil: "AList.update k v al \<noteq> []"
  by (cases al) auto

lemma fill_map_not_Nil: "result \<noteq> [] \<Longrightarrow> fill_map vs result \<noteq> []"
  by (induction vs arbitrary: result) (auto simp: update_not_Nil)

lemma getSubStringsMap_not_Nil: "getSubStringsMap array \<noteq> []"
proof -
  obtain v vs where "strings_Split array CHR '','' = v # vs"
    using strings_Split_not_Nil [of array "CHR '',''"]
    by (cases "strings_Split array CHR '',''") auto
  then show ?thesis
    by (simp add: getSubStringsMap_def fill_map_not_Nil update_not_Nil)
qed

lemma keys_fill_map: "fst ` set (fill_map vs result) = set vs \<union> fst ` set result"
  by (induction vs arbitrary: result) (auto simp: dom_update)

lemma map_of_fill_map:
  "map_of (fill_map vs result) n = (if n \<in> set vs then Some n else map_of result n)"
  by (induction vs arbitrary: result) (auto simp: update_conv')

lemma distinct_fill_map:
  "distinct (map fst result) \<Longrightarrow> distinct (map fst (fill_map vs result))"
  by (induction vs arbitrary: result) (auto simp: distinct_update)

lemma fst_getConfig_masters:
  "AvoidNetworks (fst (getConfig_masters containerEnv cconfig)) = AvoidNetworks cconfig"
  by (simp add: getConfig_masters_def Let_def split: option.splits)

lemma snd_getConfig_masters:
  "snd (getConfig_masters containerEnv cconfig) \<noteq> Some InvalidAvoidNetworks"
  by (simp add: getConfig_masters_def Let_def split: option.splits)

lemma setAndGetContainerEnv_ref:
  assumes "index_env containerEnv network = env_ref a"
  shows "setAndGetContainerEnv h containerEnv network =
     Inr (h(a := AList.update ''SERVICE_SPEC_NAME''
                   \<lparr>kv_key = ''SERVICE_SPEC_NAME'',
                    kv_value = kv_value (index_kv (h a) ''STACK_NAME'') @ ''_'' @ network @ ''_''
                               @ kv_value (index_kv (h a) ''SERVICE_NAME'')\<rparr>
                   (AList.update ''STACK_NAME''
                      \<lparr>kv_key = kv_key (index_kv (h a) ''STACK_NAME''),
                       kv_value = kv_value (index_kv (h a) ''STACK_NAME'') @ ''_'' @ network\<rparr>
                      (h a))),
          env_ref a)"
  using assms by (simp add: setAndGetContainerEnv_def assign_kv_def deref_def Let_def)

lemma setAndGetContainerEnv_nil:
  assumes "index_env containerEnv network = nil_env"
  shows "setAndGetContainerEnv h containerEnv network = Inl Panic_nil_map"
  using assms by (simp add: setAndGetContainerEnv_def assign_kv_def)

lemma index_env_configs_loop:
  "index_env (configs_loop containerEnv networks configs) n =
     (if n \<in> set networks then containerEnv else index_env configs n)"
  by (induction networks arbitrary: configs) (auto simp: index_env_def update_conv')

lemmas scenario_defs =
  build_worklist_def getServiceDefinition_def setAndGetContainerEnv_def assign_kv_def
  deref_def index_env_def index_kv_def zero_kv_def getImage_def getStackName_def
  getServiceName_def getServiceSpecName_def getContainerEnv_def scenario_heap_def
  copies_heap_def scenario_env_def entry_def Let_def

section \<open>Facts about the loops\<close>

lemma networks_loop_filter:
  "networks_loop avoidNetworks list networks =
     networks @ map nw_Name
       (filter (\<lambda>n. nw_Driver n = ''overlay'' \<and> nw_Name n \<notin> fst ` set avoidNetworks) list)"
  by (induction list arbitrary: networks) (auto simp: map_of_eq_None_iff)

lemma nodes_loop_filter:
  "nodes_loop avoidMasters list nodes =
     nodes @ map Hostname (filter (\<lambda>n. Role n \<noteq> ''manager'' \<or> avoidMasters = 0) list)"
  by (induction list arbitrary: nodes) auto

lemma deploy_all_ok:
  "deploy create wl w = (None, w') \<Longrightarrow>
     submitted w' = submitted w @ wl \<and> printed w' = printed w @ map confirmation wl"
  by (induction wl arbitrary: w) (auto split: prod.splits option.splits)

lemma deploy_append_ok:
  "deploy create pre w = (None, w') \<Longrightarrow> deploy create (pre @ rest) w = deploy create rest w'"
  by (induction pre arbitrary: w) (auto split: prod.splits option.splits)

lemma deploy_prefix:
  "\<exists>n\<le>length wl. submitted (snd (deploy create wl w)) = submitted w @ take n wl"
proof (induction wl arbitrary: w)
  case Nil
  then show ?case by simp
next
  case (Cons work rest)
  obtain e p' where c: "create (platform w) work = (e, p')"
    by (cases "create (platform w) work")
  show ?case
  proof (cases e)
    case None
    let ?w1 = "w\<lparr>platform := p', submitted := submitted w @ [work],
               printed := printed w @ [confirmation work]\<rparr>"
    from Cons.IH [of ?w1] obtain n where
      "n \<le> length rest" "submitted (snd (deploy create rest ?w1)) = submitted ?w1 @ take n rest"
      by blast
    with c None show ?thesis
      by (intro exI [of _ "Suc n"]) simp
  next
    case (Some err)
    with c show ?thesis
      by (intro exI [of _ "Suc 0"]) simp
  qed
qed

section \<open>The key-value parser\<close>

text \<open>
  Claim C10. On a line with two or more \<open>=\<close>, \<open>getKeyValue\<close> returns the text before the
  first \<open>=\<close> as the key and the text between the first and the second \<open>=\<close> as the value;
  what follows the second \<open>=\<close> is dropped. The line \<open>K=a=b\<close> gives the key \<open>K\<close> and the
  value \<open>a\<close>.
\<close>

theorem getKeyValue_two_equals:
  assumes "2 \<le> count_list data CHR ''=''"
  shows "getKeyValue data =
     Inr (takeWhile (\<lambda>c. c \<noteq> CHR ''='') data,
          takeWhile (\<lambda>c. c \<noteq> CHR ''='') (tl (dropWhile (\<lambda>c. c \<noteq> CHR ''='') data)))"
proof -
  define k where "k = takeWhile (\<lambda>c. c \<noteq> CHR ''='') data"
  define r where "r = tl (dropWhile (\<lambda>c. c \<noteq> CHR ''='') data)"
  define v where "v = takeWhile (\<lambda>c. c \<noteq> CHR ''='') r"
  define rest where "rest = tl (dropWhile (\<lambda>c. c \<noteq> CHR ''='') r)"
  have in1: "CHR ''='' \<in> set data"
    using assms by (cases "CHR ''='' \<in> set data") simp_all
  have d1: "data = k @ CHR ''='' # r"
    unfolding k_def r_def by (rule split_first [OF in1])
  have "count_list r CHR ''='' \<noteq> 0"
    using assms count_tl_dropWhile [OF in1] by (simp add: r_def)
  then have in2: "CHR ''='' \<in> set r"
    by (simp add: count_list_0_iff)
  have d2: "r = v @ CHR ''='' # rest"
    unfolding v_def rest_def by (rule split_first [OF in2])
  have nk: "CHR ''='' \<notin> set k"
    unfolding k_def by (auto dest: set_takeWhileD)
  have nv: "CHR ''='' \<notin> set v"
    unfolding v_def by (auto dest: set_takeWhileD)
  have "getKeyValue (k @ CHR ''='' # v @ CHR ''='' # rest) = Inr (k, v)"
    by (rule getKeyValue_decomposed [OF nk nv])
  then have "getKeyValue data = Inr (k, v)"
    by (simp only: d1 [symmetric] d2 [symmetric])
  then show ?thesis
    by (simp only: k_def v_def r_def)
qed

theorem getKeyValue_two_equals_witness:
  "2 \<le> count_list ''K=a=b'' CHR ''='' \<and> getKeyValue ''K=a=b'' = Inr (''K'', ''a'')"
  using getKeyValue_two_equals [of "''K=a=b''"] by simp

section \<open>Configuration\<close>

text \<open>
  Claim C8. With \<open>raw\<close> the value that \<open>getConfig\<close> reads under \<open>AVOID_MASTERS\<close> (empty when
  the key is absent): an empty \<open>raw\<close> gives \<open>AvoidMasters = 1\<close> and no error; a \<open>raw\<close> that
  \<open>strconv.Atoi\<close> parses to \<open>n\<close> gives \<open>AvoidMasters = n\<close> and no error; \<open>getConfig\<close> returns
  an error exactly when \<open>raw\<close> is not empty and \<open>strconv.Atoi\<close> rejects it, and that error is
  the one of \<open>AVOID_MASTERS\<close>.
\<close>

theorem getConfig_AvoidMasters:
  assumes "raw = kv_value (index_kv containerEnv ''AVOID_MASTERS'')"
  shows "(raw = [] \<longrightarrow>
            snd (getConfig containerEnv) = None \<and> AvoidMasters (fst (getConfig containerEnv)) = 1)
       \<and> (\<forall>n. raw \<noteq> [] \<and> Atoi raw = Some n \<longrightarrow>
            snd (getConfig containerEnv) = None \<and> AvoidMasters (fst (getConfig containerEnv)) = n)
       \<and> (snd (getConfig containerEnv) \<noteq> None \<longleftrightarrow> raw \<noteq> [] \<and> Atoi raw = None)
       \<and> (snd (getConfig containerEnv) \<noteq> None \<longrightarrow>
            snd (getConfig containerEnv) = Some InvalidAvoidMasters)"
  using assms getSubStringsMap_not_Nil [of "kv_value (index_kv containerEnv ''AVOID_NETWORKS'')"]
  by (auto simp: getConfig_def getConfig_masters_def Let_def split: option.splits)

theorem getConfig_AvoidMasters_witness:
  "snd (getConfig []) = None \<and> AvoidMasters (fst (getConfig [])) = 1
   \<and> snd (getConfig [entry ''AVOID_MASTERS'' ''0'']) = None
   \<and> AvoidMasters (fst (getConfig [entry ''AVOID_MASTERS'' ''0''])) = 0
   \<and> snd (getConfig [entry ''AVOID_MASTERS'' ''1'']) = None
   \<and> AvoidMasters (fst (getConfig [entry ''AVOID_MASTERS'' ''1''])) = 1
   \<and> snd (getConfig [entry ''AVOID_MASTERS'' ''bad'']) = Some InvalidAvoidMasters"
proof -
  have r: "x = kv_value (index_kv [entry ''AVOID_MASTERS'' x] ''AVOID_MASTERS'')" for x
    by (simp add: index_kv_def entry_def)
  have e: "[] = kv_value (index_kv [] ''AVOID_MASTERS'')"
    by (simp add: index_kv_def zero_kv_def)
  have "snd (getConfig []) = None \<and> AvoidMasters (fst (getConfig [])) = 1"
    using getConfig_AvoidMasters [OF e] by simp
  moreover have "snd (getConfig [entry ''AVOID_MASTERS'' ''0'']) = None
      \<and> AvoidMasters (fst (getConfig [entry ''AVOID_MASTERS'' ''0''])) = 0"
    using getConfig_AvoidMasters [OF r [of "''0''"]] Atoi_examples(1) by simp
  moreover have "snd (getConfig [entry ''AVOID_MASTERS'' ''1'']) = None
      \<and> AvoidMasters (fst (getConfig [entry ''AVOID_MASTERS'' ''1''])) = 1"
    using getConfig_AvoidMasters [OF r [of "''1''"]] Atoi_examples(2) by simp
  moreover have "snd (getConfig [entry ''AVOID_MASTERS'' ''bad'']) = Some InvalidAvoidMasters"
    using getConfig_AvoidMasters [OF r [of "''bad''"]] Atoi_examples(3) by simp
  ultimately show ?thesis by simp
qed

text \<open>
  Claim C9. With \<open>raw\<close> the value that \<open>getConfig\<close> reads under \<open>AVOID_NETWORKS\<close> (empty when
  the key is absent): an empty \<open>raw\<close> gives the avoid-set \<open>{ingress}\<close>; any other \<open>raw\<close> gives
  the map whose keys are the substrings of \<open>raw\<close> between the commas, each mapped to
  itself (so \<open>a,b,c\<close> gives \<open>{a, b, c}\<close>); and the error of \<open>AVOID_NETWORKS\<close> is never returned.
\<close>

theorem getConfig_AvoidNetworks:
  assumes "raw = kv_value (index_kv containerEnv ''AVOID_NETWORKS'')"
  shows "(raw = [] \<longrightarrow>
            AvoidNetworks (fst (getConfig containerEnv)) = [(''ingress'', ''ingress'')])
       \<and> (raw \<noteq> [] \<longrightarrow>
            fst ` set (AvoidNetworks (fst (getConfig containerEnv)))
              = set (strings_Split raw CHR '','')
          \<and> (\<forall>n. map_of (AvoidNetworks (fst (getConfig containerEnv))) n
                = (if n \<in> set (strings_Split raw CHR '','') then Some n else None)))
       \<and> snd (getConfig containerEnv) \<noteq> Some InvalidAvoidNetworks"
  using assms getSubStringsMap_not_Nil [of raw]
  by (simp add: getConfig_def Let_def fst_getConfig_masters snd_getConfig_masters
        getSubStringsMap_def keys_fill_map map_of_fill_map)

theorem getConfig_AvoidNetworks_witness:
  "AvoidNetworks (fst (getConfig [])) = [(''ingress'', ''ingress'')]
   \<and> AvoidNetworks (fst (getConfig [entry ''AVOID_NETWORKS'' []])) = [(''ingress'', ''ingress'')]
   \<and> fst ` set (AvoidNetworks (fst (getConfig [entry ''AVOID_NETWORKS'' ''a,b,c''])))
       = {''a'', ''b'', ''c''}"
proof -
  have r: "x = kv_value (index_kv [entry ''AVOID_NETWORKS'' x] ''AVOID_NETWORKS'')" for x
    by (simp add: index_kv_def entry_def)
  have e: "[] = kv_value (index_kv [] ''AVOID_NETWORKS'')"
    by (simp add: index_kv_def zero_kv_def)
  have "AvoidNetworks (fst (getConfig [])) = [(''ingress'', ''ingress'')]"
    using getConfig_AvoidNetworks [OF e] by simp
  moreover have
    "AvoidNetworks (fst (getConfig [entry ''AVOID_NETWORKS'' []])) = [(''ingress'', ''ingress'')]"
    using getConfig_AvoidNetworks [OF r [of "[]"]] by simp
  moreover have "fst ` set (AvoidNetworks (fst (getConfig [entry ''AVOID_NETWORKS'' ''a,b,c''])))
       = {''a'', ''b'', ''c''}"
    using getConfig_AvoidNetworks [OF r [of "''a,b,c''"]] by auto
  ultimately show ?thesis by simp
qed

section \<open>Network discovery\<close>

text \<open>
  Claim C7. When the platform answers with a list, \<open>getNetworkList\<close> returns the names of
  the networks whose driver is \<open>overlay\<close> and whose name is not a key of the avoid-set, in
  the order of the platform's list; a network with another driver is left out whatever
  the avoid-set holds.
\<close>

theorem getNetworkList_filter:
  "getNetworkList None (Inr list) avoidNetworks =
     Inr (map nw_Name
       (filter (\<lambda>n. nw_Driver n = ''overlay'' \<and> nw_Name n \<notin> fst ` set avoidNetworks) list))"
  by (simp add: getNetworkList_def networks_loop_filter)

theorem getNetworkList_filter_witness:
  "getNetworkList None
     (Inr [\<lparr>nw_Name = ''net-b'', nw_Driver = ''overlay''\<rparr>,
           \<lparr>nw_Name = ''bridge'', nw_Driver = ''bridge''\<rparr>,
           \<lparr>nw_Name = ''ingress'', nw_Driver = ''overlay''\<rparr>,
           \<lparr>nw_Name = ''net-a'', nw_Driver = ''overlay''\<rparr>])
     [(''ingress'', ''ingress'')] = Inr [''net-b'', ''net-a'']"
  using getNetworkList_filter [of
      "[\<lparr>nw_Name = ''net-b'', nw_Driver = ''overlay''\<rparr>,
        \<lparr>nw_Name = ''bridge'', nw_Driver = ''bridge''\<rparr>,
        \<lparr>nw_Name = ''ingress'', nw_Driver = ''overlay''\<rparr>,
        \<lparr>nw_Name = ''net-a'', nw_Driver = ''overlay''\<rparr>]"
      "[(''ingress'', ''ingress'')]"]
  by simp

section \<open>The environment transformation\<close>

text \<open>
  Claim C3. When the environment of network \<open>N\<close> holds \<open>STACK_NAME\<close> with value \<open>S\<close> and
  \<open>SERVICE_NAME\<close> with value \<open>V\<close>, one call of \<open>setAndGetContainerEnv\<close> for \<open>N\<close> leaves it
  with \<open>STACK_NAME\<close> of value \<open>S_N\<close> (same key), with an entry \<open>SERVICE_SPEC_NAME\<close> of value
  \<open>S_N_V\<close>, and with the entries \<open>SERVICE_NAME\<close> and \<open>IMAGE\<close> as they were.
\<close>

theorem setAndGetContainerEnv_names:
  assumes "index_env containerEnv N = env_ref a"
    and "map_of (h a) ''STACK_NAME'' = Some \<lparr>kv_key = K, kv_value = S\<rparr>"
    and "map_of (h a) ''SERVICE_NAME'' = Some \<lparr>kv_key = K', kv_value = V\<rparr>"
  shows "\<exists>h'. setAndGetContainerEnv h containerEnv N = Inr (h', env_ref a)
       \<and> map_of (h' a) ''STACK_NAME'' = Some \<lparr>kv_key = K, kv_value = S @ ''_'' @ N\<rparr>
       \<and> map_of (h' a) ''SERVICE_SPEC_NAME'' =
           Some \<lparr>kv_key = ''SERVICE_SPEC_NAME'', kv_value = S @ ''_'' @ N @ ''_'' @ V\<rparr>
       \<and> map_of (h' a) ''SERVICE_NAME'' = map_of (h a) ''SERVICE_NAME''
       \<and> map_of (h' a) ''IMAGE'' = map_of (h a) ''IMAGE''"
  using assms
  by (simp add: setAndGetContainerEnv_ref index_kv_def update_conv')

theorem setAndGetContainerEnv_names_witness:
  "\<exists>h'. setAndGetContainerEnv scenario_heap [(''net-a'', env_ref 0)] ''net-a'' = Inr (h', env_ref 0)
       \<and> map_of (h' 0) ''STACK_NAME'' = Some \<lparr>kv_key = ''STACK_NAME'', kv_value = ''app_net-a''\<rparr>
       \<and> map_of (h' 0) ''SERVICE_SPEC_NAME'' =
           Some \<lparr>kv_key = ''SERVICE_SPEC_NAME'', kv_value = ''app_net-a_svc''\<rparr>
       \<and> map_of (h' 0) ''SERVICE_NAME'' = Some \<lparr>kv_key = ''SERVICE_NAME'', kv_value = ''svc''\<rparr>
       \<and> map_of (h' 0) ''IMAGE'' = Some \<lparr>kv_key = ''IMAGE'', kv_value = ''img:v1''\<rparr>"
proof -
  have 1: "index_env [(''net-a'', env_ref 0)] ''net-a'' = env_ref 0"
    by (simp add: index_env_def)
  have 2: "map_of (scenario_heap 0) ''STACK_NAME'' = Some \<lparr>kv_key = ''STACK_NAME'', kv_value = ''app''\<rparr>"
    by (simp add: scenario_heap_def scenario_env_def entry_def)
  have 3: "map_of (scenario_heap 0) ''SERVICE_NAME'' = Some \<lparr>kv_key = ''SERVICE_NAME'', kv_value = ''svc''\<rparr>"
    by (simp add: scenario_heap_def scenario_env_def entry_def)
  have 4: "map_of (scenario_heap 0) ''IMAGE'' = Some \<lparr>kv_key = ''IMAGE'', kv_value = ''img:v1''\<rparr>"
    by (simp add: scenario_heap_def scenario_env_def entry_def)
  show ?thesis
    using setAndGetContainerEnv_names [where h = scenario_heap and a = 0, OF 1 2 3] 3 4 by simp
qed

text \<open>
  Claim C6. For two different network names whose environments are separate map objects
  of equal contents, transforming the first and then the second gives two different
  \<open>SERVICE_SPEC_NAME\<close> values.
\<close>

theorem service_spec_names_differ:
  assumes "N1 \<noteq> N2"
    and "index_env containerEnv N1 = env_ref a1"
    and "index_env containerEnv N2 = env_ref a2"
    and "a1 \<noteq> a2"
    and "h a1 = base" and "h a2 = base"
  shows "\<exists>h1 h2. setAndGetContainerEnv h containerEnv N1 = Inr (h1, env_ref a1)
       \<and> setAndGetContainerEnv h1 containerEnv N2 = Inr (h2, env_ref a2)
       \<and> getServiceSpecName (h2 a1) \<noteq> getServiceSpecName (h2 a2)"
  using assms
  by (simp add: setAndGetContainerEnv_ref getServiceSpecName_def index_kv_update)

theorem service_spec_names_differ_witness:
  "\<exists>h1 h2. setAndGetContainerEnv copies_heap
               [(''net-a'', env_ref 1), (''net-b'', env_ref 2)] ''net-a'' = Inr (h1, env_ref 1)
       \<and> setAndGetContainerEnv h1
               [(''net-a'', env_ref 1), (''net-b'', env_ref 2)] ''net-b'' = Inr (h2, env_ref 2)
       \<and> getServiceSpecName (h2 1) \<noteq> getServiceSpecName (h2 2)"
proof -
  have 1: "''net-a'' \<noteq> ''net-b''" by simp
  have 2: "index_env [(''net-a'', env_ref 1), (''net-b'', env_ref 2)] ''net-a'' = env_ref 1"
    by (simp add: index_env_def)
  have 3: "index_env [(''net-a'', env_ref 1), (''net-b'', env_ref 2)] ''net-b'' = env_ref 2"
    by (simp add: index_env_def)
  have 4: "(1::nat) \<noteq> 2" by simp
  have 5: "copies_heap 1 = scenario_env" and 6: "copies_heap 2 = scenario_env"
    by (simp_all add: copies_heap_def)
  show ?thesis
    by (rule service_spec_names_differ [OF 1 2 3 4 5 6])
qed

text \<open>
  Claim C1, on the code. \<open>main\<close> stores the one map \<open>containerEnv\<close> under every network
  name, so the entries of \<open>configs\<close> are the same map object. With the base environment
  \<open>STACK_NAME=app\<close>, \<open>SERVICE_NAME=svc\<close>, \<open>IMAGE=img:v1\<close> and the networks \<open>net-a\<close>, \<open>net-b\<close>:
  the entries for \<open>net-a\<close> and \<open>net-b\<close> are equal references, and after the transformation
  for \<open>net-a\<close> the environment read under \<open>net-b\<close> has the stack name \<open>app_net-a\<close> (it was
  \<open>app\<close>) and holds \<open>SERVICE_SPEC_NAME\<close>.
\<close>

theorem configs_share_one_map:
  "index_env (configs_loop (env_ref 0) [''net-a'', ''net-b''] []) ''net-a''
     = index_env (configs_loop (env_ref 0) [''net-a'', ''net-b''] []) ''net-b''
   \<and> getStackName (deref scenario_heap
         (index_env (configs_loop (env_ref 0) [''net-a'', ''net-b''] []) ''net-b'')) = ''app''
   \<and> (\<exists>h'. setAndGetContainerEnv scenario_heap
               (configs_loop (env_ref 0) [''net-a'', ''net-b''] []) ''net-a'' = Inr (h', env_ref 0)
        \<and> getStackName (deref h'
              (index_env (configs_loop (env_ref 0) [''net-a'', ''net-b''] []) ''net-b''))
            = ''app_net-a''
        \<and> map_of (deref h'
              (index_env (configs_loop (env_ref 0) [''net-a'', ''net-b''] []) ''net-b''))
              ''SERVICE_SPEC_NAME''
            = Some \<lparr>kv_key = ''SERVICE_SPEC_NAME'', kv_value = ''app_net-a_svc''\<rparr>)"
  by (simp add: scenario_defs)

section \<open>Service specifications and the worklist\<close>

text \<open>
  Claim C4, as amended. For a network that has an environment, \<open>getServiceDefinition\<close>
  transforms that environment and returns a specification whose name is the
  environment's \<open>SERVICE_SPEC_NAME\<close> value, whose image is its \<open>IMAGE\<close> value, whose command
  is \<open>/go/bin/pinger\<close>, whose one network attachment has the \<open>SERVICE_NAME\<close> value as its
  only alias, and whose labels are exactly \<open>com.docker.stack.image\<close> with the \<open>IMAGE\<close> value
  and \<open>com.docker.stack.namespace\<close> with the \<open>STACK_NAME\<close> value.
\<close>

theorem getServiceDefinition_fields:
  assumes "index_env cfg network = env_ref a"
  shows "\<exists>h' s. setAndGetContainerEnv h cfg network = Inr (h', env_ref a)
       \<and> getServiceDefinition h replicas network cfg = Inr (h', s)
       \<and> spec_Name s = kv_value (index_kv (h' a) ''SERVICE_SPEC_NAME'')
       \<and> Image (ContainerSpec (TaskTemplate s)) = kv_value (index_kv (h' a) ''IMAGE'')
       \<and> Command (ContainerSpec (TaskTemplate s)) = [''/go/bin/pinger'']
       \<and> map Aliases (Networks (TaskTemplate s)) = [[kv_value (index_kv (h' a) ''SERVICE_NAME'')]]
       \<and> map_of (spec_Labels s) =
           map_of [(''com.docker.stack.image'', kv_value (index_kv (h' a) ''IMAGE'')),
                   (''com.docker.stack.namespace'', kv_value (index_kv (h' a) ''STACK_NAME''))]"
  by (simp add: getServiceDefinition_def setAndGetContainerEnv_ref [OF assms] deref_def
        getImage_def getStackName_def getServiceName_def getServiceSpecName_def Let_def)

theorem getServiceDefinition_fields_witness:
  "\<exists>h' s. getServiceDefinition scenario_heap 3 ''net-a'' [(''net-a'', env_ref 0)] = Inr (h', s)
       \<and> spec_Name s = ''app_net-a_svc''
       \<and> Image (ContainerSpec (TaskTemplate s)) = ''img:v1''
       \<and> Command (ContainerSpec (TaskTemplate s)) = [''/go/bin/pinger'']
       \<and> map Aliases (Networks (TaskTemplate s)) = [[''svc'']]
       \<and> map_of (spec_Labels s) =
           map_of [(''com.docker.stack.image'', ''img:v1''),
                   (''com.docker.stack.namespace'', ''app_net-a'')]"
proof -
  have 1: "index_env [(''net-a'', env_ref 0)] ''net-a'' = env_ref 0"
    by (simp add: index_env_def)
  show ?thesis
    using getServiceDefinition_fields [OF 1, of scenario_heap 3]
    by (simp add: scenario_defs)
qed

text \<open>
  Claim C4, as stated, fails on the label keys: the labels that \<open>getServiceDefinition\<close>
  sets for the scenario's environment and the network \<open>net-a\<close> are not the map with the
  keys \<open>stack.image\<close> and \<open>stack.namespace\<close>.
\<close>

theorem labels_counterexample:
  "map_sum id (map_of \<circ> spec_Labels \<circ> snd)
     (getServiceDefinition scenario_heap 3 ''net-a'' [(''net-a'', env_ref 0)])
   \<noteq> Inr (map_of [(''stack.image'', ''img:v1''), (''stack.namespace'', ''app_net-a'')])"
  by (auto simp: scenario_defs dest: fun_cong [of _ _ "''stack.image''"])

text \<open>
  Claim C2, on the code. For the scenario's base environment, the networks \<open>net-a\<close>,
  \<open>net-b\<close> and three nodes, the worklist has two specifications with three replicas each,
  attached to \<open>net-a\<close> and to \<open>net-b\<close>; the first is named \<open>app_net-a_svc\<close> with namespace
  \<open>app_net-a\<close>, and the second is named \<open>app_net-a_net-b_svc\<close> with namespace
  \<open>app_net-a_net-b\<close>, since both networks transform the same map.
\<close>

theorem scenario_worklist:
  "\<exists>h' wl. build_worklist scenario_heap (env_ref 0) [''net-a'', ''net-b''] [''n1'', ''n2'', ''n3'']
      = Inr (h', wl)
    \<and> map spec_Name wl = [''app_net-a_svc'', ''app_net-a_net-b_svc'']
    \<and> map Replicas wl = [3, 3]
    \<and> map (map Target \<circ> Networks \<circ> TaskTemplate) wl = [[''net-a''], [''net-b'']]
    \<and> map spec_Labels wl =
        [[(''com.docker.stack.image'', ''img:v1''),
          (''com.docker.stack.namespace'', ''app_net-a'')],
         [(''com.docker.stack.image'', ''img:v1''),
          (''com.docker.stack.namespace'', ''app_net-a_net-b'')]]"
  by (simp add: scenario_defs)

section \<open>Deployment\<close>

text \<open>
  Claim C5. The specifications handed to the platform are a prefix of the worklist, in
  its order. When every call succeeds the whole worklist is handed over and one
  confirmation line with the service name is printed per entry. When the calls for the
  entries \<open>pre\<close> succeed and the call for the next entry \<open>work\<close> fails, the run ends with
  that error, exactly \<open>pre\<close> and \<open>work\<close> have been handed over, none of the later entries,
  and the confirmations printed are those of \<open>pre\<close>.
\<close>

theorem deploy_fail_fast:
  "(\<exists>n\<le>length wl. submitted (snd (deploy create wl w)) = submitted w @ take n wl)
   \<and> (\<forall>w'. deploy create wl w = (None, w') \<longrightarrow>
         submitted w' = submitted w @ wl \<and> printed w' = printed w @ map confirmation wl)
   \<and> (\<forall>pre work rest w' err p'.
         wl = pre @ work # rest \<and> deploy create pre w = (None, w')
           \<and> create (platform w') work = (Some err, p') \<longrightarrow>
         deploy create wl w =
           (Some (Fatal_create err),
            \<lparr>platform = p', submitted = submitted w @ pre @ [work],
             printed = printed w @ map confirmation pre\<rparr>))"
proof (intro conjI allI impI)
  show "\<exists>n\<le>length wl. submitted (snd (deploy create wl w)) = submitted w @ take n wl"
    by (rule deploy_prefix)
next
  fix w' assume "deploy create wl w = (None, w')"
  then show "submitted w' = submitted w @ wl" "printed w' = printed w @ map confirmation wl"
    using deploy_all_ok by blast+
next
  fix pre work rest w' err p'
  assume a: "wl = pre @ work # rest \<and> deploy create pre w = (None, w')
           \<and> create (platform w') work = (Some err, p')"
  then have "deploy create wl w = deploy create (work # rest) w'"
    by (simp add: deploy_append_ok)
  moreover have "submitted w' = submitted w @ pre" "printed w' = printed w @ map confirmation pre"
    using a deploy_all_ok by blast+
  ultimately show "deploy create wl w =
           (Some (Fatal_create err),
            \<lparr>platform = p', submitted = submitted w @ pre @ [work],
             printed = printed w @ map confirmation pre\<rparr>)"
    using a by simp
qed

theorem deploy_fail_fast_witness:
  "deploy refuse_b [named_spec ''a'', named_spec ''b'', named_spec ''c'']
     \<lparr>platform = 0, submitted = [], printed = []\<rparr>
   = (Some (Fatal_create ''boom''),
      \<lparr>platform = 2, submitted = [named_spec ''a'', named_spec ''b''],
       printed = [''created server: a'' @ [CHR 0x0A]]\<rparr>)
   \<and> deploy refuse_b [named_spec ''a'', named_spec ''c'']
       \<lparr>platform = 0, submitted = [], printed = []\<rparr>
     = (None,
        \<lparr>platform = 2, submitted = [named_spec ''a'', named_spec ''c''],
         printed = [''created server: a'' @ [CHR 0x0A], ''created server: c'' @ [CHR 0x0A]]\<rparr>)"
  using deploy_fail_fast [of "[named_spec ''a'', named_spec ''b'', named_spec ''c'']" refuse_b
      "\<lparr>platform = 0, submitted = [], printed = []\<rparr>"]
    deploy_fail_fast [of "[named_spec ''a'', named_spec ''c'']" refuse_b
      "\<lparr>platform = 0, submitted = [], printed = []\<rparr>"]
  by (simp add: named_spec_def confirmation_def refuse_b_def)

end
